theory Spec2Isabelle
  imports Main "HOL-Library.Multiset"
begin

section \<open>Data model\<close>

text \<open>
  A matrix is a Python list of rows, each row a list of numbers. The element type is
  left open: it only has to provide \<open>0\<close>, \<open>+\<close> and \<open>*\<close>, and no law about them is
  ever used. Every result below therefore holds for Python floats with their rounding
  addition and multiplication (where \<open>+\<close> is not associative), as well as for Python
  integers, which is the instance used in the worked examples.
\<close>

type_synonym 'a matrix = "'a list list"

text \<open>
  The exceptions the program can raise. The \<open>ValueError\<close>s are told apart by their
  message: the first two are the messages of the checks at the head of
  \<open>multiply_matrices\<close> ("the matrices must not be empty", "the number of columns of the
  first matrix must equal the number of rows of the second"), the third is the message
  of the standard library's \<open>Pool\<close> constructor ("Number of processes must be at least 1"),
  the fourth that of \<open>float\<close> on a text that is not a number. \<open>TypeError\<close> is what the
  pool constructor ends with on a number of processes that is no integer, \<open>RuntimeError\<close>
  what pickling a lock raises ("Lock objects should only be shared between processes
  through inheritance").
\<close>

datatype message =
  Matrices_empty | Columns_differ_from_rows | Processes_less_than_1 | Could_not_convert

datatype error = ValueError message | IndexError | TypeError | RuntimeError

text \<open>Python's \<open>xs[i]\<close> for an index that \<open>range\<close> produced (never negative).\<close>

definition getitem :: "'a list \<Rightarrow> nat \<Rightarrow> error + 'a" where
  "getitem xs i = (if i < length xs then Inr (xs ! i) else Inl IndexError)"

section \<open>The cell computation\<close>

text \<open>
  The loop \<open>for k in range(N): result += A[i][k] * B[k][j]\<close> of \<open>compute_element\<close>,
  over the remaining values of \<open>k\<close>, with the running \<open>result\<close>. The subscripts are
  evaluated left to right; the first one out of range raises.
\<close>

fun accumulate ::
  "'a::{plus,times} matrix \<Rightarrow> 'a matrix \<Rightarrow> nat \<Rightarrow> nat \<Rightarrow> nat list \<Rightarrow> 'a \<Rightarrow> error + 'a" where
  "accumulate A B i j [] result = Inr result"
| "accumulate A B i j (k # ks) result =
     (case getitem A i of Inl e \<Rightarrow> Inl e | Inr Ai \<Rightarrow>
     (case getitem Ai k of Inl e \<Rightarrow> Inl e | Inr a \<Rightarrow>
     (case getitem B k of Inl e \<Rightarrow> Inl e | Inr Bk \<Rightarrow>
     (case getitem Bk j of Inl e \<Rightarrow> Inl e | Inr b \<Rightarrow>
        accumulate A B i j ks (result + a * b)))))"

type_synonym 'a task = "nat \<times> nat \<times> 'a matrix \<times> 'a matrix"

type_synonym 'a cell_result = "nat \<times> nat \<times> 'a"

fun compute_element :: "'a::{zero,plus,times} task \<Rightarrow> error + 'a cell_result" where
  "compute_element (i, j, A, B) =
     (case getitem A 0 of Inl e \<Rightarrow> Inl e | Inr A0 \<Rightarrow>
     (case accumulate A B i j [0..<length A0] 0 of Inl e \<Rightarrow> Inl e
      | Inr result \<Rightarrow> Inr (i, j, result)))"

section \<open>The process pool of the standard library\<close>

text \<open>
  \<open>multiprocessing.Pool\<close> is not part of the repository; it is modelled after its
  documented behaviour. The constructor refuses a number of processes below one.
  \<open>pool.map(func, iterable)\<close> cuts the iterable into consecutive chunks whose size
  depends on the number of workers (\<open>divmod(len(iterable), 4 * workers)\<close>, rounded up),
  hands the chunks to the workers, and returns the results of all calls in the order of
  the iterable, whichever worker ran them; an exception raised by a call is raised
  again in the caller. Every call of this program that raises, raises \<open>IndexError\<close>,
  so which of several failing calls is reported makes no difference; the model reports
  the first in the order of the iterable.
\<close>

definition Pool :: "int \<Rightarrow> error + nat" where
  "Pool processes =
     (if processes < 1 then Inl (ValueError Processes_less_than_1) else Inr (nat processes))"

function chunks :: "nat \<Rightarrow> 'a list \<Rightarrow> 'a list list" where
  "chunks n xs =
     (if n = 0 \<or> xs = [] then [] else take n xs # chunks n (drop n xs))"
  by pat_completeness auto
termination
  by (relation "measure (\<lambda>(n, xs). length xs)") auto

declare chunks.simps [simp del]

fun collect :: "(error + 'r) list \<Rightarrow> error + 'r list" where
  "collect [] = Inr []"
| "collect (Inl e # rs) = Inl e"
| "collect (Inr r # rs) = (case collect rs of Inl e \<Rightarrow> Inl e | Inr vs \<Rightarrow> Inr (r # vs))"

definition chunksize :: "nat \<Rightarrow> nat \<Rightarrow> nat" where
  "chunksize workers n =
     (if n mod (workers * 4) \<noteq> 0 then n div (workers * 4) + 1 else n div (workers * 4))"

definition pool_map :: "nat \<Rightarrow> ('t \<Rightarrow> error + 'r) \<Rightarrow> 't list \<Rightarrow> error + 'r list" where
  "pool_map workers func iterable =
     collect (concat (map (map func) (chunks (chunksize workers (length iterable)) iterable)))"

section \<open>The worker-pool multiply\<close>

text \<open>The assignment \<open>C[i][j] = value\<close>.\<close>

definition setitem2 :: "'a matrix \<Rightarrow> nat \<Rightarrow> nat \<Rightarrow> 'a \<Rightarrow> error + 'a matrix" where
  "setitem2 C i j v =
     (if i < length C \<and> j < length (C ! i) then Inr (C[i := (C ! i)[j := v]])
      else Inl IndexError)"

text \<open>The loop \<open>for i, j, value in results: C[i][j] = value\<close>.\<close>

fun aggregate :: "'a matrix \<Rightarrow> 'a cell_result list \<Rightarrow> error + 'a matrix" where
  "aggregate C [] = Inr C"
| "aggregate C ((i, j, v) # results) =
     (case setitem2 C i j v of Inl e \<Rightarrow> Inl e | Inr C' \<Rightarrow> aggregate C' results)"

text \<open>
  \<open>multiply_matrices(A, B, num_processes=None)\<close>. The first argument is what
  \<open>multiprocessing.cpu_count()\<close> returns on the machine.
\<close>

definition multiply_matrices ::
  "int \<Rightarrow> 'a::{zero,plus,times} matrix \<Rightarrow> 'a matrix \<Rightarrow> int option \<Rightarrow> error + 'a matrix" where
  "multiply_matrices cpu_count A B num_processes =
     (if A = [] \<or> B = [] then Inl (ValueError Matrices_empty)
      else if length (A ! 0) \<noteq> length B then Inl (ValueError Columns_differ_from_rows)
      else
        let rows_A = length A;
            cols_B = length (B ! 0);
            tasks = [(i, j, A, B). i \<leftarrow> [0..<rows_A], j \<leftarrow> [0..<cols_B]];
            processes = (case num_processes of None \<Rightarrow> cpu_count | Some n \<Rightarrow> n)
        in (case Pool processes of Inl e \<Rightarrow> Inl e | Inr workers \<Rightarrow>
           (case pool_map workers compute_element tasks of Inl e \<Rightarrow> Inl e
            | Inr results \<Rightarrow> aggregate (replicate rows_A (replicate cols_B 0)) results)))"


section \<open>The worker count as Python passes it\<close>

text \<open>
  Python does not type \<open>num_processes\<close>: besides \<open>None\<close> and an integer the caller can pass
  a float or a text. A finite float is \<open>m * 2 ^ e\<close> for two integers \<open>m\<close> and \<open>e\<close>.
\<close>

datatype py_float = Finite int int | Infinity | Neg_infinity | Nan

datatype py_value = PyInt int | PyFloat py_float | PyStr string

text \<open>\<open>x < 1\<close> for a float (false for \<open>nan\<close>).\<close>

fun float_below_one :: "py_float \<Rightarrow> bool" where
  "float_below_one (Finite m e) = (if 0 \<le> e then m \<le> 0 else m < 2 ^ nat (- e))"
| "float_below_one Infinity = False"
| "float_below_one Neg_infinity = True"
| "float_below_one Nan = False"

text \<open>
  The pool constructor on any such value: \<open>if processes < 1: raise ValueError(...)\<close>
  compares the value with \<open>1\<close>, which raises \<open>TypeError\<close> for a text; a float that is not
  below one then reaches \<open>range(processes - len(pool))\<close>, which raises \<open>TypeError\<close> before
  any worker process is made.
\<close>

fun Pool_any :: "py_value \<Rightarrow> error + nat" where
  "Pool_any (PyInt n) =
     (if n < 1 then Inl (ValueError Processes_less_than_1) else Inr (nat n))"
| "Pool_any (PyFloat x) =
     (if float_below_one x then Inl (ValueError Processes_less_than_1) else Inl TypeError)"
| "Pool_any (PyStr s) = Inl TypeError"

text \<open>
  \<open>multiply_matrices(A, B, num_processes=None)\<close> with the override as any of these values.
  On integers it is \<open>multiply_matrices\<close> above.
\<close>

definition multiply_matrices_any ::
  "int \<Rightarrow> 'a::{zero,plus,times} matrix \<Rightarrow> 'a matrix \<Rightarrow> py_value option \<Rightarrow> error + 'a matrix" where
  "multiply_matrices_any cpu_count A B num_processes =
     (if A = [] \<or> B = [] then Inl (ValueError Matrices_empty)
      else if length (A ! 0) \<noteq> length B then Inl (ValueError Columns_differ_from_rows)
      else
        let rows_A = length A;
            cols_B = length (B ! 0);
            tasks = [(i, j, A, B). i \<leftarrow> [0..<rows_A], j \<leftarrow> [0..<cols_B]];
            processes = (case num_processes of None \<Rightarrow> PyInt cpu_count | Some v \<Rightarrow> v)
        in (case Pool_any processes of Inl e \<Rightarrow> Inl e | Inr workers \<Rightarrow>
           (case pool_map workers compute_element tasks of Inl e \<Rightarrow> Inl e
            | Inr results \<Rightarrow> aggregate (replicate rows_A (replicate cols_B 0)) results)))"

text \<open>A positive integer; and \<open>v < 1\<close> where the comparison gives an answer.\<close>

fun positive_integer :: "py_value \<Rightarrow> bool" where
  "positive_integer (PyInt n) = (1 \<le> n)"
| "positive_integer (PyFloat x) = False"
| "positive_integer (PyStr s) = False"

fun below_one :: "py_value \<Rightarrow> bool" where
  "below_one (PyInt n) = (n < 1)"
| "below_one (PyFloat x) = float_below_one x"
| "below_one (PyStr s) = False"


section \<open>The reference product\<close>

text \<open>
  The sequential reference the worker-pool multiply is compared with: three nested loops
  over \<open>i\<close>, \<open>j\<close> and \<open>k\<close>, each cell summed from \<open>k = 0\<close> upward, starting from \<open>0\<close>.
\<close>

definition naive_product :: "'a::{zero,plus,times} matrix \<Rightarrow> 'a matrix \<Rightarrow> 'a matrix" where
  "naive_product A B =
     map (\<lambda>i. map (\<lambda>j. foldl (\<lambda>s k. s + A ! i ! k * B ! k ! j) 0 [0..<length B])
                  [0..<length (B ! 0)])
         [0..<length A]"

text \<open>One cell of the reference product.\<close>

definition cell :: "'a::{zero,plus,times} matrix \<Rightarrow> 'a matrix \<Rightarrow> nat \<Rightarrow> nat \<Rightarrow> 'a" where
  "cell A B i j = foldl (\<lambda>s k. s + A ! i ! k * B ! k ! j) 0 [0..<length B]"

text \<open>
  Compatible operands: \<open>A\<close> is \<open>m \<times> k\<close> and \<open>B\<close> is \<open>k \<times> n\<close> with \<open>m\<close> and \<open>k\<close> at least one;
  every row of \<open>A\<close> has as many entries as \<open>B\<close> has rows, and the rows of \<open>B\<close> have one
  common length.
\<close>

definition compatible :: "'a matrix \<Rightarrow> 'a matrix \<Rightarrow> bool" where
  "compatible A B \<longleftrightarrow>
     A \<noteq> [] \<and> B \<noteq> [] \<and> (\<forall>row \<in> set A. length row = length B) \<and>
     (\<forall>row \<in> set B. length row = length (B ! 0))"


section \<open>The logging worker-pool multiply\<close>

text \<open>
  The intermediate file is a list of lines. A line \<open>f"{i} {j} {result}\n"\<close> is kept as
  its three fields. The lock makes every append atomic, so the file only ever holds
  whole lines.
\<close>

type_synonym 'a log = "(nat \<times> nat \<times> 'a) list"

text \<open>The \<open>multiprocessing.Lock()\<close> that the call makes.\<close>

datatype lock = Lock

text \<open>
  A task of the logging multiply: \<open>(i, j, A, B, lock, filename)\<close>. Every task holds the
  lock and the name of the intermediate file.
\<close>

type_synonym 'a write_task = "nat \<times> nat \<times> 'a matrix \<times> 'a matrix \<times> lock \<times> string"

text \<open>
  \<open>compute_and_write\<close>: the cell is computed as in \<open>compute_element\<close>, then one line is
  appended to the file under the lock. The content of the file named in the task is
  passed as state.
\<close>

fun compute_and_write ::
  "'a::{zero,plus,times} write_task \<Rightarrow> 'a log \<Rightarrow> (error + 'a cell_result) \<times> 'a log" where
  "compute_and_write (i, j, A, B, lock, filename) file =
     (case getitem A 0 of Inl e \<Rightarrow> (Inl e, file) | Inr A0 \<Rightarrow>
     (case accumulate A B i j [0..<length A0] 0 of Inl e \<Rightarrow> (Inl e, file)
      | Inr result \<Rightarrow> (Inr (i, j, result), file @ [(i, j, result)])))"

text \<open>
  Pickling. \<open>pool.map\<close> sends every batch of tasks to the workers through a pipe, and for
  that pickles it. Numbers, lists and texts pickle; a lock does not: its \<open>__getstate__\<close>
  raises \<open>RuntimeError\<close> unless a process is being spawned at that moment, and the thread
  that sends the tasks spawns none.
\<close>

definition pickle_lock :: "lock \<Rightarrow> error + lock" where
  "pickle_lock l = Inl RuntimeError"

fun pickle_write_task :: "'a write_task \<Rightarrow> error + 'a write_task" where
  "pickle_write_task (i, j, A, B, lock, filename) =
     (case pickle_lock lock of Inl e \<Rightarrow> Inl e
      | Inr lock' \<Rightarrow> Inr (i, j, A, B, lock', filename))"

text \<open>
  The batches that reach the workers, as the tasks unpickled there, and the exceptions
  of the batches that could not be pickled. A batch that cannot be pickled is not sent;
  its exception is recorded as the outcome of the batch.
\<close>

fun send_batches :: "('t \<Rightarrow> error + 't) \<Rightarrow> 't list list \<Rightarrow> error list \<times> 't list" where
  "send_batches pickle [] = ([], [])"
| "send_batches pickle (batch # batches) =
     (case send_batches pickle batches of (errors, sent) \<Rightarrow>
        (case collect (map pickle batch) of
           Inl e \<Rightarrow> (e # errors, sent)
         | Inr received \<Rightarrow> (errors, received @ sent)))"

text \<open>
  \<open>pool.map\<close> with a function that writes. The calls that run are those of the tasks that
  were sent. The workers run in parallel; what the file sees is the order in which the
  calls take the lock. That order is a parameter: \<open>sched t\<close> is the time at which the
  \<open>t\<close>-th task sent gets the lock (ties go to the earlier task), so every order of the
  tasks is some \<open>sched\<close>. \<open>run_in_order\<close> runs the calls in that order on the shared state
  and keeps each result with the number of its task. \<open>pool.map\<close> returns the results in
  the order of the iterable when every batch was sent and every call returned, and
  raises otherwise: the exception of a batch that could not be pickled, or else that of
  a call. A call that raises ends the run; the calls that took the lock before it have
  written their lines.
\<close>

fun run_in_order ::
  "('t \<Rightarrow> 's \<Rightarrow> (error + 'r) \<times> 's) \<Rightarrow> 't list \<Rightarrow> nat list \<Rightarrow> 's \<Rightarrow>
   (error + (nat \<times> 'r) list) \<times> 's" where
  "run_in_order func iterable [] s = (Inr [], s)"
| "run_in_order func iterable (t # ts) s =
     (case func (iterable ! t) s of
        (Inl e, s') \<Rightarrow> (Inl e, s')
      | (Inr r, s') \<Rightarrow>
          (case run_in_order func iterable ts s' of
             (Inl e, s'') \<Rightarrow> (Inl e, s'')
           | (Inr rs, s'') \<Rightarrow> (Inr ((t, r) # rs), s'')))"

definition pool_map_shared ::
  "nat \<Rightarrow> (nat \<Rightarrow> nat) \<Rightarrow> ('t \<Rightarrow> error + 't) \<Rightarrow> ('t \<Rightarrow> 's \<Rightarrow> (error + 'r) \<times> 's) \<Rightarrow>
   't list \<Rightarrow> 's \<Rightarrow> (error + 'r list) \<times> 's" where
  "pool_map_shared workers sched pickle func iterable s =
     (case send_batches pickle (chunks (chunksize workers (length iterable)) iterable) of
        (errors, sent) \<Rightarrow>
          (case run_in_order func sent (sort_key sched [0..<length sent]) s of
             (outcome, s') \<Rightarrow>
               (case errors of
                  e # es \<Rightarrow> (Inl e, s')
                | [] \<Rightarrow>
                    (case outcome of
                       Inl e \<Rightarrow> (Inl e, s')
                     | Inr rs \<Rightarrow> (Inr (map snd (sort_key fst rs)), s')))))"

text \<open>
  \<open>multiply_matrices_with_intermediate_write(A, B, intermediate_file, num_processes=None)\<close>.
  The arguments \<open>cpu_count\<close> and \<open>sched\<close> are the machine's processor count and the order
  in which the workers reach the lock; \<open>file\<close> is what the intermediate file holds before
  the call. The result is the returned matrix (or the exception) and the file afterwards.
\<close>

definition multiply_matrices_with_intermediate_write ::
  "int \<Rightarrow> (nat \<Rightarrow> nat) \<Rightarrow> 'a::{zero,plus,times} matrix \<Rightarrow> 'a matrix \<Rightarrow> string \<Rightarrow> 'a log \<Rightarrow>
   int option \<Rightarrow> (error + 'a matrix) \<times> 'a log" where
  "multiply_matrices_with_intermediate_write cpu_count sched A B intermediate_file file
       num_processes =
     (if A = [] \<or> B = [] then (Inl (ValueError Matrices_empty), file)
      else if length (A ! 0) \<noteq> length B then (Inl (ValueError Columns_differ_from_rows), file)
      else
        let rows_A = length A;
            cols_B = length (B ! 0);
            truncated = [];
            lock = Lock;
            tasks = [(i, j, A, B, lock, intermediate_file).
                       i \<leftarrow> [0..<rows_A], j \<leftarrow> [0..<cols_B]];
            processes = (case num_processes of None \<Rightarrow> cpu_count | Some n \<Rightarrow> n)
        in (case Pool processes of Inl e \<Rightarrow> (Inl e, truncated) | Inr workers \<Rightarrow>
           (case pool_map_shared workers sched pickle_write_task compute_and_write tasks
                   truncated of
              (Inl e, written) \<Rightarrow> (Inl e, written)
            | (Inr results, written) \<Rightarrow>
                (aggregate (replicate rows_A (replicate cols_B 0)) results, written))))"


section \<open>The streaming pipeline\<close>

text \<open>
  A channel (\<open>multiprocessing.Queue\<close>) is modelled by the sequence of values that its
  producer puts on it, in order; \<open>None\<close> is the sentinel. \<open>get()\<close> blocks until the next
  value is there and each channel has one consumer, so what a consumer does is a
  function of these sequences; a \<open>get()\<close> on a sequence that is used up never returns.
\<close>

type_synonym 'a channel = "'a matrix option list"

text \<open>
  What the multiplier actor does, in order: a value pulled from channel A or B, a call
  of \<open>multiply_matrices\<close> on the two pulled values, a value pushed on the result channel.
\<close>

datatype 'a event =
  Get_A "'a matrix option"
| Get_B "'a matrix option"
| Multiply "'a matrix option" "'a matrix option"
| Put "'a matrix option"

text \<open>
  How the actor ends: it returns, it waits for ever in a \<open>get()\<close>, or it dies of an
  exception that \<open>multiply_matrices\<close> raised.
\<close>

datatype status = Finished | Blocked | Raised error

text \<open>
  \<open>multiply_matrices_async(queue_A, queue_B, result_queue, size)\<close>; the argument \<open>size\<close>
  is not used by the source. Each round of the loop pulls from A, then from B, and only
  then looks at the two values.
\<close>

fun multiply_matrices_async ::
  "int \<Rightarrow> 'a::{zero,plus,times} channel \<Rightarrow> 'a channel \<Rightarrow> 'a event list \<times> status" where
  "multiply_matrices_async cpu_count [] queue_B = ([], Blocked)"
| "multiply_matrices_async cpu_count (a # queue_A) [] = ([Get_A a], Blocked)"
| "multiply_matrices_async cpu_count (a # queue_A) (b # queue_B) =
     (case (a, b) of
        (Some A, Some B) \<Rightarrow>
          (case multiply_matrices cpu_count A B None of
             Inl e \<Rightarrow> ([Get_A a, Get_B b, Multiply a b], Raised e)
           | Inr C \<Rightarrow>
               (case multiply_matrices_async cpu_count queue_A queue_B of
                  (events, st) \<Rightarrow>
                    ([Get_A a, Get_B b, Multiply a b, Put (Some C)] @ events, st)))
      | _ \<Rightarrow> ([Get_A a, Get_B b, Put None], Finished))"

text \<open>The values pushed on the result channel, in order.\<close>

fun puts :: "'a event list \<Rightarrow> 'a channel" where
  "puts [] = []"
| "puts (Put m # events) = m # puts events"
| "puts (Get_A a # events) = puts events"
| "puts (Get_B b # events) = puts events"
| "puts (Multiply a b # events) = puts events"

text \<open>
  \<open>random.random()\<close>: the generator's source of values is a sequence of which the next
  unread position is kept.
\<close>

type_synonym 'a rng = "(nat \<Rightarrow> 'a) \<times> nat"

definition random_random :: "'a rng \<Rightarrow> 'a \<times> 'a rng" where
  "random_random st = (fst st (snd st), (fst st, Suc (snd st)))"

text \<open>\<open>[random.random() for _ in range(n)]\<close>\<close>

fun random_list :: "nat \<Rightarrow> 'a rng \<Rightarrow> 'a list \<times> 'a rng" where
  "random_list 0 st = ([], st)"
| "random_list (Suc n) st =
     (case random_random st of (x, st1) \<Rightarrow>
     (case random_list n st1 of (xs, st2) \<Rightarrow> (x # xs, st2)))"

text \<open>\<open>[[random.random() for _ in range(n)] for _ in range(m)]\<close>\<close>

fun random_rows :: "nat \<Rightarrow> nat \<Rightarrow> 'a rng \<Rightarrow> 'a matrix \<times> 'a rng" where
  "random_rows 0 n st = ([], st)"
| "random_rows (Suc m) n st =
     (case random_list n st of (row, st1) \<Rightarrow>
     (case random_rows m n st1 of (rows, st2) \<Rightarrow> (row # rows, st2)))"

definition generate_random_matrix :: "int \<Rightarrow> 'a rng \<Rightarrow> 'a matrix \<times> 'a rng" where
  "generate_random_matrix size' st = random_rows (nat size') (nat size') st"

text \<open>
  \<open>generate_random_matrix_process(size, queue, num_matrices, matrix_type)\<close>: the values
  the process puts on its queue. \<open>range(num_matrices)\<close> is empty for a negative count.
\<close>

fun generate_loop :: "nat \<Rightarrow> int \<Rightarrow> 'a rng \<Rightarrow> 'a channel" where
  "generate_loop 0 size' st = [None]"
| "generate_loop (Suc n) size' st =
     (case generate_random_matrix size' st of (matrix, st') \<Rightarrow>
        Some matrix # generate_loop n size' st')"

definition generate_random_matrix_process :: "int \<Rightarrow> int \<Rightarrow> 'a rng \<Rightarrow> 'a channel" where
  "generate_random_matrix_process size' num_matrices st =
     generate_loop (nat num_matrices) size' st"

text \<open>
  The loop of \<open>async_multiplication_demo\<close> that drains the result queue, from the count
  reached so far: it reports the count when it sees the sentinel and waits for ever when
  the queue runs dry without one.
\<close>

datatype outcome = Reports nat | Hangs

fun drain :: "'a channel \<Rightarrow> nat \<Rightarrow> outcome" where
  "drain [] completed = Hangs"
| "drain (None # result_queue) completed = Reports completed"
| "drain (Some C # result_queue) completed = drain result_queue (Suc completed)"

text \<open>
  \<open>async_multiplication_demo(size, num_matrices)\<close>: the two generators, each with its own
  source of random values, the multiplier, and the draining loop. When the loop has seen
  the sentinel all three processes have returned, so the joins return too.
\<close>

definition async_multiplication_demo ::
  "int \<Rightarrow> int \<Rightarrow> int \<Rightarrow> 'a::{zero,plus,times} rng \<Rightarrow> 'a rng \<Rightarrow> outcome" where
  "async_multiplication_demo cpu_count size' num_matrices rng_A rng_B =
     (let queue_A = generate_random_matrix_process size' num_matrices rng_A;
          queue_B = generate_random_matrix_process size' num_matrices rng_B;
          result_queue = puts (fst (multiply_matrices_async cpu_count queue_A queue_B))
      in drain result_queue 0)"

text \<open>Predicates on what the multiplier actor did.\<close>

fun is_get :: "'a event \<Rightarrow> bool" where
  "is_get (Get_A a) = True"
| "is_get (Get_B b) = True"
| "is_get (Multiply a b) = False"
| "is_get (Put m) = False"

fun pulls_sentinel :: "'a event \<Rightarrow> bool" where
  "pulls_sentinel (Get_A a) = (a = None)"
| "pulls_sentinel (Get_B b) = (b = None)"
| "pulls_sentinel (Multiply a b) = False"
| "pulls_sentinel (Put m) = False"

text \<open>No pull at all after a pull that returned the sentinel.\<close>

fun stops_at_sentinel :: "'a event list \<Rightarrow> bool" where
  "stops_at_sentinel [] = True"
| "stops_at_sentinel (e # events) =
     (if pulls_sentinel e then \<not> list_ex is_get events else stops_at_sentinel events)"

text \<open>
  No pull after the round in which the sentinel was pulled: when the sentinel comes from
  A, the pull from B of the same round is still made, and nothing is pulled after it.
\<close>

fun stops_after_sentinel_round :: "'a event list \<Rightarrow> bool" where
  "stops_after_sentinel_round [] = True"
| "stops_after_sentinel_round [e] = True"
| "stops_after_sentinel_round (Get_A a # Get_B b # events) =
     (if a = None \<or> b = None then \<not> list_ex is_get events
      else stops_after_sentinel_round events)"
| "stops_after_sentinel_round (e # e' # events) = stops_after_sentinel_round (e' # events)"

text \<open>A round in which the sentinel was pulled and both pulls returned.\<close>

fun sentinel_round :: "'a event list \<Rightarrow> bool" where
  "sentinel_round [] = False"
| "sentinel_round [e] = False"
| "sentinel_round (Get_A a # Get_B b # events) =
     (a = None \<or> b = None \<or> sentinel_round events)"
| "sentinel_round (e # e' # events) = sentinel_round (e' # events)"

text \<open>\<open>multiply_matrices\<close> was never called on the sentinel.\<close>

fun no_sentinel_multiplied :: "'a event list \<Rightarrow> bool" where
  "no_sentinel_multiplied [] = True"
| "no_sentinel_multiplied (Multiply a b # events) =
     (a \<noteq> None \<and> b \<noteq> None \<and> no_sentinel_multiplied events)"
| "no_sentinel_multiplied (e # events) = no_sentinel_multiplied events"

text \<open>
  The matrix that \<open>generate_random_matrix\<close> builds from the values at positions \<open>p\<close>,
  \<open>p + 1\<close>, ... of the source: row after row, \<open>n\<close> rows of \<open>n\<close> values.
\<close>

definition drawn_matrix :: "(nat \<Rightarrow> 'a) \<Rightarrow> nat \<Rightarrow> nat \<Rightarrow> 'a matrix" where
  "drawn_matrix g p n = map (\<lambda>r. map g [p + r * n..<p + r * n + n]) [0..<n]"


section \<open>The matrix files\<close>

text \<open>
  A text is a list of characters with codes below 256. The functions \<open>str\<close> and \<open>float\<close>
  of Python are parameters of the model: \<open>str\<close> gives the text form of a number, \<open>float\<close>
  reads one back and raises \<open>ValueError\<close> (here \<open>None\<close>) on a text that is not a number.
\<close>

text \<open>\<open>c.isspace()\<close> for the characters below 256.\<close>

definition isspace :: "char \<Rightarrow> bool" where
  "isspace c \<longleftrightarrow>
     c \<in> set [CHR 0x09, CHR 0x0A, CHR 0x0B, CHR 0x0C, CHR 0x0D, CHR 0x1C, CHR 0x1D,
              CHR 0x1E, CHR 0x1F, CHR 0x20, CHR 0x85, CHR 0xA0]"

text \<open>\<open>s.strip()\<close>\<close>

definition strip :: "string \<Rightarrow> string" where
  "strip s = rev (dropWhile isspace (rev (dropWhile isspace s)))"

text \<open>
  \<open>s.split()\<close>: the maximal runs of characters that are not whitespace. The second
  argument of \<open>split_from\<close> is the run read so far.
\<close>

fun split_from :: "string \<Rightarrow> string \<Rightarrow> string list" where
  "split_from [] word = (if word = [] then [] else [word])"
| "split_from (c # cs) word =
     (if isspace c then (if word = [] then split_from cs [] else word # split_from cs [])
      else split_from cs (word @ [c]))"

definition split :: "string \<Rightarrow> string list" where
  "split s = split_from s []"

text \<open>\<open>sep.join(words)\<close>\<close>

fun join :: "string \<Rightarrow> string list \<Rightarrow> string" where
  "join sep [] = []"
| "join sep [w] = w"
| "join sep (w # w' # ws) = w @ sep @ join sep (w' # ws)"

text \<open>
  \<open>for line in file\<close> on a file opened for reading in text mode: the lines of the
  content, each with its end of line. A line ends at \<open>\n\<close>, at \<open>\r\n\<close> or at a lone \<open>\r\<close>,
  and each of these is handed to the program as \<open>\n\<close>; the last line may have no end of
  line. The second argument is the line read so far.
\<close>

function readlines :: "string \<Rightarrow> string \<Rightarrow> string list" where
  "readlines [] line = (if line = [] then [] else [line])"
| "readlines (c # cs) line =
     (if c = CHR 0x0A then (line @ [CHR 0x0A]) # readlines cs []
      else if c = CHR 0x0D then
        (line @ [CHR 0x0A]) #
          readlines (case cs of [] \<Rightarrow> [] | d # ds \<Rightarrow> if d = CHR 0x0A then ds else cs) []
      else readlines cs (line @ [c]))"
  by pat_completeness auto
termination
  by (relation "measure (\<lambda>(content, line). length content)") (auto split: list.splits)

text \<open>
  \<open>write_matrix(filename, matrix)\<close>: the content of the file afterwards, on a system
  whose end of line is \<open>\n\<close>. The file is opened with \<open>'w'\<close>, so nothing of an earlier
  content is left.
\<close>

definition write_matrix :: "('a \<Rightarrow> string) \<Rightarrow> 'a matrix \<Rightarrow> string" where
  "write_matrix str matrix =
     concat (map (\<lambda>row. join [CHR 0x20] (map str row) @ [CHR 0x0A]) matrix)"

text \<open>\<open>list(map(float, words))\<close>\<close>

fun convert_row :: "(string \<Rightarrow> 'b option) \<Rightarrow> string list \<Rightarrow> error + 'b list" where
  "convert_row float [] = Inr []"
| "convert_row float (w # ws) =
     (case float w of None \<Rightarrow> Inl (ValueError Could_not_convert)
      | Some x \<Rightarrow>
          (case convert_row float ws of Inl e \<Rightarrow> Inl e | Inr xs \<Rightarrow> Inr (x # xs)))"

text \<open>The loop of \<open>read_matrix\<close> over the lines; a line that is blank is skipped.\<close>

fun read_rows :: "(string \<Rightarrow> 'b option) \<Rightarrow> string list \<Rightarrow> error + 'b matrix" where
  "read_rows float [] = Inr []"
| "read_rows float (line # lines) =
     (if strip line \<noteq> [] then
        (case convert_row float (split (strip line)) of Inl e \<Rightarrow> Inl e
         | Inr row \<Rightarrow>
             (case read_rows float lines of Inl e \<Rightarrow> Inl e
              | Inr matrix \<Rightarrow> Inr (row # matrix)))
      else read_rows float lines)"

text \<open>\<open>read_matrix(filename)\<close>, from the content of the file.\<close>

definition read_matrix :: "(string \<Rightarrow> 'b option) \<Rightarrow> string \<Rightarrow> error + 'b matrix" where
  "read_matrix float content = read_rows float (readlines content [])"

text \<open>A text that is not empty and neither starts nor ends with whitespace.\<close>

definition solid :: "string \<Rightarrow> bool" where
  "solid s \<longleftrightarrow> s \<noteq> [] \<and> \<not> isspace (hd s) \<and> \<not> isspace (last s)"


section \<open>Properties of the worker-pool multiply\<close>

lemma concat_chunks: "0 < n \<Longrightarrow> concat (chunks n xs) = xs"
proof (induction n xs rule: chunks.induct)
  case (1 n xs)
  show ?case
  proof (cases "xs = []")
    case True
    then show ?thesis by (simp add: chunks.simps)
  next
    case False
    with 1 have "concat (chunks n (drop n xs)) = drop n xs" by simp
    with False 1(2) show ?thesis by (subst chunks.simps) simp
  qed
qed

lemma chunks_Nil: "chunks n [] = []"
  by (simp add: chunks.simps)

lemma chunksize_pos: "0 < workers \<Longrightarrow> 0 < n \<Longrightarrow> 0 < chunksize workers n"
  by (auto simp: chunksize_def)

lemma pool_map_collect: "0 < workers \<Longrightarrow> pool_map workers func xs = collect (map func xs)"
proof (cases "xs = []")
  case True
  then show ?thesis by (simp add: pool_map_def chunks_Nil)
next
  case False
  assume "0 < workers"
  with False have "0 < chunksize workers (length xs)" by (simp add: chunksize_pos)
  then have "concat (chunks (chunksize workers (length xs)) xs) = xs" by (rule concat_chunks)
  then show ?thesis by (simp add: pool_map_def map_concat [symmetric])
qed

lemma collect_map_Inr: "(\<And>x. x \<in> set xs \<Longrightarrow> f x = Inr (g x)) \<Longrightarrow> collect (map f xs) = Inr (map g xs)"
  by (induction xs) auto

lemma accumulate_Inr:
  "i < length A \<Longrightarrow> (\<And>k. k \<in> set ks \<Longrightarrow> k < length (A ! i) \<and> k < length B \<and> j < length (B ! k)) \<Longrightarrow>
   accumulate A B i j ks r = Inr (foldl (\<lambda>s k. s + A ! i ! k * B ! k ! j) r ks)"
  by (induction ks arbitrary: r) (auto simp: getitem_def)

lemma aggregate_cells:
  "length C = m \<Longrightarrow> (\<And>row. row \<in> set C \<Longrightarrow> length row = n) \<Longrightarrow>
   (\<And>i j. (i, j) \<in> set ps \<Longrightarrow> i < m \<and> j < n) \<Longrightarrow>
   \<exists>C'. aggregate C (map (\<lambda>(i, j). (i, j, f i j)) ps) = Inr C' \<and> length C' = m \<and>
        (\<forall>row \<in> set C'. length row = n) \<and>
        (\<forall>i < m. \<forall>j < n. C' ! i ! j = (if (i, j) \<in> set ps then f i j else C ! i ! j))"
proof (induction ps arbitrary: C)
  case Nil
  then show ?case by simp
next
  case (Cons p ps)
  obtain a b where p: "p = (a, b)" by (cases p)
  from Cons.prems p have ab: "a < m" "b < n" by auto
  let ?C1 = "C[a := (C ! a)[b := f a b]]"
  have len: "length ?C1 = m" using Cons.prems(1) by simp
  have Ca: "length (C ! a) = n" using Cons.prems(1,2) ab by simp
  have rows: "length row = n" if "row \<in> set ?C1" for row
  proof -
    from that have "row = (C ! a)[b := f a b] \<or> row \<in> set C"
      using set_update_subset_insert [of C a "(C ! a)[b := f a b]"] by auto
    then show ?thesis using Ca Cons.prems(2) by auto
  qed
  have "\<exists>C'. aggregate ?C1 (map (\<lambda>(i, j). (i, j, f i j)) ps) = Inr C' \<and> length C' = m \<and>
        (\<forall>row \<in> set C'. length row = n) \<and>
        (\<forall>i < m. \<forall>j < n. C' ! i ! j = (if (i, j) \<in> set ps then f i j else ?C1 ! i ! j))"
    using Cons.prems(3) by (intro Cons.IH len rows) auto
  then obtain C' where C': "aggregate ?C1 (map (\<lambda>(i, j). (i, j, f i j)) ps) = Inr C'"
    "length C' = m" "\<forall>row \<in> set C'. length row = n"
    "\<forall>i < m. \<forall>j < n. C' ! i ! j = (if (i, j) \<in> set ps then f i j else ?C1 ! i ! j)" by blast
  have step: "setitem2 C a b (f a b) = Inr ?C1"
    using ab Cons.prems(1) Ca by (simp add: setitem2_def)
  have "\<forall>i < m. \<forall>j < n. C' ! i ! j = (if (i, j) \<in> set (p # ps) then f i j else C ! i ! j)"
    using C'(4) ab Cons.prems(1) Ca p by (auto simp: nth_list_update)
  with C' step p show ?case by simp
qed


lemma compatible_nonempty: "compatible A B \<Longrightarrow> A \<noteq> [] \<and> B \<noteq> []"
  unfolding compatible_def by blast

lemma compatible_rows_A: "compatible A B \<Longrightarrow> i < length A \<Longrightarrow> length (A ! i) = length B"
  unfolding compatible_def using nth_mem by blast

lemma compatible_rows_B: "compatible A B \<Longrightarrow> k < length B \<Longrightarrow> length (B ! k) = length (B ! 0)"
  unfolding compatible_def using nth_mem by blast

lemma compute_element_Inr:
  assumes "compatible A B" "i < length A" "j < length (B ! 0)"
  shows "compute_element (i, j, A, B) = Inr (i, j, cell A B i j)"
proof -
  from assms(1) have "A \<noteq> []" by (simp add: compatible_nonempty)
  then have A0: "getitem A 0 = Inr (A ! 0)" by (simp add: getitem_def)
  from \<open>A \<noteq> []\<close> have len: "length (A ! 0) = length B"
    using compatible_rows_A [OF assms(1), of 0] by simp
  have rowA: "length (A ! i) = length B"
    using assms(1,2) by (rule compatible_rows_A)
  have "accumulate A B i j [0..<length B] 0 =
        Inr (foldl (\<lambda>s k. s + A ! i ! k * B ! k ! j) 0 [0..<length B])"
  proof (rule accumulate_Inr)
    show "i < length A" by (rule assms(2))
    fix k assume "k \<in> set [0..<length B]"
    then have k: "k < length B" by simp
    then have "length (B ! k) = length (B ! 0)" by (rule compatible_rows_B [OF assms(1)])
    with k rowA assms(3) show "k < length (A ! i) \<and> k < length B \<and> j < length (B ! k)"
      by simp
  qed
  then have "accumulate A B i j [0..<length (A ! 0)] 0 = Inr (cell A B i j)"
    by (simp only: cell_def len)
  with A0 show ?thesis by (simp only: compute_element.simps sum.case)
qed

lemma matrix_eqI:
  assumes "length C = m" "length D = m" "\<forall>row \<in> set C. length row = n"
    "\<forall>row \<in> set D. length row = n" "\<forall>i < m. \<forall>j < n. C ! i ! j = D ! i ! j"
  shows "C = D"
proof (rule nth_equalityI)
  show "length C = length D" using assms by simp
next
  fix i assume i: "i < length C"
  with assms have "length (C ! i) = n" "length (D ! i) = n" by auto
  with assms i show "C ! i = D ! i" by (intro nth_equalityI) auto
qed

lemma aggregate_grid:
  "aggregate (replicate m (replicate n z))
     (map (\<lambda>(i, j). (i, j, f i j)) [(i, j). i \<leftarrow> [0..<m], j \<leftarrow> [0..<n]]) =
   Inr (map (\<lambda>i. map (\<lambda>j. f i j) [0..<n]) [0..<m])"
proof -
  let ?ps = "[(i, j). i \<leftarrow> [0..<m], j \<leftarrow> [0..<n]]"
  let ?Z = "replicate m (replicate n z)"
  have mem: "(i, j) \<in> set ?ps \<longleftrightarrow> i < m \<and> j < n" for i j by force
  have "\<exists>C'. aggregate ?Z (map (\<lambda>(i, j). (i, j, f i j)) ?ps) = Inr C' \<and>
        length C' = m \<and> (\<forall>row \<in> set C'. length row = n) \<and>
        (\<forall>i < m. \<forall>j < n. C' ! i ! j = (if (i, j) \<in> set ?ps then f i j else ?Z ! i ! j))"
  proof (rule aggregate_cells)
    show "length ?Z = m" by simp
    show "\<And>row. row \<in> set ?Z \<Longrightarrow> length row = n" by simp
    show "\<And>i j. (i, j) \<in> set ?ps \<Longrightarrow> i < m \<and> j < n" using mem by blast
  qed
  then obtain C' where C': "aggregate ?Z (map (\<lambda>(i, j). (i, j, f i j)) ?ps) = Inr C'"
    "length C' = m" "\<forall>row \<in> set C'. length row = n"
    "\<forall>i < m. \<forall>j < n. C' ! i ! j = (if (i, j) \<in> set ?ps then f i j else ?Z ! i ! j)"
    by blast
  have cells: "\<forall>i < m. \<forall>j < n. C' ! i ! j = f i j"
    using C'(4) mem by simp
  have "C' = map (\<lambda>i. map (\<lambda>j. f i j) [0..<n]) [0..<m]"
  proof (rule matrix_eqI [where m = m and n = n])
    show "length C' = m" by (rule C'(2))
    show "length (map (\<lambda>i. map (\<lambda>j. f i j) [0..<n]) [0..<m]) = m" by simp
    show "\<forall>row \<in> set C'. length row = n" by (rule C'(3))
    show "\<forall>row \<in> set (map (\<lambda>i. map (\<lambda>j. f i j) [0..<n]) [0..<m]). length row = n" by auto
    show "\<forall>i<m. \<forall>j<n. C' ! i ! j = map (\<lambda>i. map (\<lambda>j. f i j) [0..<n]) [0..<m] ! i ! j"
      using cells by simp
  qed
  with C'(1) show ?thesis by simp
qed

lemma naive_product_cell:
  "naive_product A B = map (\<lambda>i. map (\<lambda>j. cell A B i j) [0..<length (B ! 0)]) [0..<length A]"
  by (simp add: naive_product_def cell_def)


lemma multiply_matrices_naive:
  assumes comp: "compatible A B"
    and np: "1 \<le> (case num_processes of None \<Rightarrow> cpu_count | Some n \<Rightarrow> n)"
  shows "multiply_matrices cpu_count A B num_processes = Inr (naive_product A B)"
proof -
  let ?m = "length A" and ?n = "length (B ! 0)"
  let ?ps = "[(i, j). i \<leftarrow> [0..<?m], j \<leftarrow> [0..<?n]]"
  let ?tasks = "[(i, j, A, B). i \<leftarrow> [0..<?m], j \<leftarrow> [0..<?n]]"
  let ?procs = "case num_processes of None \<Rightarrow> cpu_count | Some n \<Rightarrow> n"
  have pool: "Pool ?procs = Inr (nat ?procs)" "0 < nat ?procs"
    using np by (auto simp: Pool_def)
  have "compute_element t = Inr ((\<lambda>(i, j, A, B). (i, j, cell A B i j)) t)"
    if "t \<in> set ?tasks" for t
  proof -
    from that obtain i j where "t = (i, j, A, B)" "i < ?m" "j < ?n" by auto
    with comp show ?thesis by (simp only: compute_element_Inr prod.case)
  qed
  then have "collect (map compute_element ?tasks) =
        Inr (map (\<lambda>(i, j, A, B). (i, j, cell A B i j)) ?tasks)"
    by (rule collect_map_Inr)
  moreover have "map (\<lambda>(i, j, A, B). (i, j, cell A B i j)) ?tasks =
        map (\<lambda>(i, j). (i, j, cell A B i j)) ?ps"
    by (simp add: map_concat comp_def)
  ultimately have res: "pool_map (nat ?procs) compute_element ?tasks =
        Inr (map (\<lambda>(i, j). (i, j, cell A B i j)) ?ps)"
    using pool(2) by (simp only: pool_map_collect)
  have agg: "aggregate (replicate ?m (replicate ?n 0)) (map (\<lambda>(i, j). (i, j, cell A B i j)) ?ps) =
        Inr (naive_product A B)"
    unfolding naive_product_cell by (rule aggregate_grid)
  have "A \<noteq> []" "B \<noteq> []"
    using comp by (simp_all add: compatible_nonempty)
  moreover from this have "length (A ! 0) = length B"
    using compatible_rows_A [OF comp, of 0] by simp
  ultimately show ?thesis
    unfolding multiply_matrices_def Let_def
    by (simp only: pool res agg if_False sum.case simp_thms)
qed


lemma example_compatible: "compatible [[1, 2], [3, 4]] [[5, 6], [7, 8 :: int]]"
  by (simp add: compatible_def)

lemma upt_2: "[0..<2] = [0, 1]"
  by (simp add: upt_rec)

lemma example_naive:
  "naive_product [[1, 2], [3, 4]] [[5, 6], [7, 8 :: int]] = [[19, 22], [43, 50]]"
  by (simp add: naive_product_def upt_2)

lemma concat_map_Nil: "concat (map (\<lambda>i. []) xs) = []"
  by (induction xs) simp_all

lemma pool_map_Nil: "pool_map workers func [] = Inr []"
  by (simp add: pool_map_def chunks_Nil)


section \<open>Properties of the pool constructor\<close>

lemma multiply_matrices_any_int:
  "multiply_matrices_any cpu_count A B (map_option PyInt num_processes) =
   multiply_matrices cpu_count A B num_processes"
  by (cases num_processes) (simp_all add: multiply_matrices_any_def multiply_matrices_def Pool_def)

lemma Pool_any_rejects:
  "\<not> positive_integer v \<Longrightarrow>
   Pool_any v = Inl (if below_one v then ValueError Processes_less_than_1 else TypeError)"
  by (cases v) auto


section \<open>Properties of the logging multiply\<close>

lemma chunks_nonempty: "0 < n \<Longrightarrow> xs \<noteq> [] \<Longrightarrow> chunks n xs \<noteq> []"
  by (subst chunks.simps) simp

lemma chunks_batches_nonempty: "batch \<in> set (chunks n xs) \<Longrightarrow> batch \<noteq> []"
proof (induction n xs rule: chunks.induct)
  case (1 n xs)
  show ?case
  proof (cases "n = 0 \<or> xs = []")
    case True
    with "1.prems" show ?thesis by (simp add: chunks.simps)
  next
    case False
    with "1.prems" have "batch = take n xs \<or> batch \<in> set (chunks n (drop n xs))"
      by (subst (asm) chunks.simps) simp
    with False "1.IH" show ?thesis by auto
  qed
qed

lemma collect_first_Inl: "collect (Inl e # rs) = Inl e"
  by simp

lemma send_batches_none:
  assumes "\<And>t. pickle t = Inl e" "\<And>batch. batch \<in> set batches \<Longrightarrow> batch \<noteq> []"
  shows "send_batches pickle batches = (replicate (length batches) e, [])"
  using assms(2)
proof (induction batches)
  case Nil
  show ?case by simp
next
  case (Cons batch batches)
  then obtain t ts where "batch = t # ts" by (cases batch) auto
  then have "collect (map pickle batch) = Inl e" by (simp add: assms(1))
  moreover have "send_batches pickle batches = (replicate (length batches) e, [])"
    using Cons.prems by (intro Cons.IH) simp
  ultimately show ?case by simp
qed

lemma pool_map_shared_unpicklable:
  assumes "\<And>t. pickle t = Inl e" "0 < workers" "iterable \<noteq> []"
  shows "pool_map_shared workers sched pickle func iterable s = (Inl e, s)"
proof -
  let ?batches = "chunks (chunksize workers (length iterable)) iterable"
  have pos: "0 < chunksize workers (length iterable)"
    using assms(2,3) by (intro chunksize_pos) simp_all
  then have ne: "?batches \<noteq> []" using assms(3) by (rule chunks_nonempty)
  have "send_batches pickle ?batches = (replicate (length ?batches) e, [])"
    using assms(1) chunks_batches_nonempty by (rule send_batches_none)
  moreover from ne obtain k where "length ?batches = Suc k" by (cases ?batches) auto
  ultimately show ?thesis by (simp add: pool_map_shared_def)
qed

lemma pickle_write_task_fails: "pickle_write_task t = Inl RuntimeError"
  by (cases t) (simp add: pickle_lock_def)

lemma concat_map_nonempty:
  "xs \<noteq> [] \<Longrightarrow> ys \<noteq> [] \<Longrightarrow> concat (map (\<lambda>i. map (f i) ys) xs) \<noteq> []"
  by (cases xs) auto

lemma logging_multiply_raises:
  assumes "A \<noteq> []" "B \<noteq> []" "length (A ! 0) = length B" "B ! 0 \<noteq> []"
    and "1 \<le> (case num_processes of None \<Rightarrow> cpu_count | Some n \<Rightarrow> n)"
  shows "multiply_matrices_with_intermediate_write cpu_count sched A B intermediate_file content
           num_processes = (Inl RuntimeError, [])"
proof -
  let ?procs = "case num_processes of None \<Rightarrow> cpu_count | Some n \<Rightarrow> n"
  let ?tasks = "[(i, j, A, B, Lock, intermediate_file).
                   i \<leftarrow> [0..<length A], j \<leftarrow> [0..<length (B ! 0)]]"
  have pool: "Pool ?procs = Inr (nat ?procs)" "0 < nat ?procs"
    using assms(5) by (auto simp: Pool_def)
  have "?tasks \<noteq> []"
    using assms(1,4) by (intro concat_map_nonempty) simp_all
  with pool(2) have "pool_map_shared (nat ?procs) sched pickle_write_task compute_and_write
      ?tasks [] = (Inl RuntimeError, [])"
    by (intro pool_map_shared_unpicklable pickle_write_task_fails)
  with assms(1,2,3) pool(1) show ?thesis
    unfolding multiply_matrices_with_intermediate_write_def Let_def
    by (simp only: if_False sum.case prod.case simp_thms)
qed


lemma example_checks:
  "[[1, 2], [3, 4 :: int]] \<noteq> []" "[[5, 6], [7, 8 :: int]] \<noteq> []"
  "length ([[1, 2], [3, 4 :: int]] ! 0) = length [[5, 6], [7, 8 :: int]]"
  "[[5, 6], [7, 8 :: int]] ! 0 \<noteq> []"
  by simp_all


section \<open>Properties of the streaming pipeline\<close>

lemma random_list_eq: "random_list n (g, p) = (map g [p..<p + n], (g, p + n))"
proof (induction n arbitrary: p)
  case 0
  show ?case by simp
next
  case (Suc n)
  have "[p..<p + Suc n] = p # [Suc p..<Suc p + n]"
    by (simp add: upt_conv_Cons)
  with Suc [of "Suc p"] show ?case by (simp add: random_random_def)
qed

lemma map_upt_Suc_shift: "map f [0..<Suc m] = f 0 # map (\<lambda>r. f (Suc r)) [0..<m]"
  by (simp only: map_upt_Suc)

lemma random_rows_eq:
  "random_rows m n (g, p) =
     (map (\<lambda>r. map g [p + r * n..<p + r * n + n]) [0..<m], (g, p + m * n))"
proof (induction m arbitrary: p)
  case 0
  show ?case by simp
next
  case (Suc m)
  have "map (\<lambda>r. map g [p + r * n..<p + r * n + n]) [0..<Suc m] =
        map g [p..<p + n] # map (\<lambda>r. map g [p + n + r * n..<p + n + r * n + n]) [0..<m]"
    by (simp add: map_upt_Suc_shift add.assoc add.left_commute del: upt_Suc)
  with Suc [of "p + n"] show ?case
    by (simp add: random_list_eq add.assoc del: upt_Suc)
qed

lemma generate_random_matrix_eq:
  "generate_random_matrix s (g, p) = (drawn_matrix g p (nat s), (g, p + nat s * nat s))"
  by (simp add: generate_random_matrix_def random_rows_eq drawn_matrix_def)

lemma generate_loop_eq:
  "generate_loop k s (g, p) =
     map (\<lambda>i. Some (drawn_matrix g (p + i * (nat s * nat s)) (nat s))) [0..<k] @ [None]"
proof (induction k arbitrary: p)
  case 0
  show ?case by simp
next
  case (Suc k)
  have "map (\<lambda>i. Some (drawn_matrix g (p + i * (nat s * nat s)) (nat s))) [0..<Suc k] =
        Some (drawn_matrix g p (nat s)) #
        map (\<lambda>i. Some (drawn_matrix g (p + nat s * nat s + i * (nat s * nat s)) (nat s))) [0..<k]"
    by (simp add: map_upt_Suc_shift add.assoc del: upt_Suc)
  with Suc [of "p + nat s * nat s"] show ?case
    by (simp add: generate_random_matrix_eq del: upt_Suc)
qed

lemma drawn_matrix_shape:
  "length (drawn_matrix g p n) = n \<and> (\<forall>row \<in> set (drawn_matrix g p n). length row = n)"
  by (auto simp: drawn_matrix_def)

lemma drawn_matrix_compatible:
  assumes "0 < n"
  shows "compatible (drawn_matrix g p n) (drawn_matrix g' p' n)"
proof -
  have A: "length (drawn_matrix g p n) = n" "\<forall>row \<in> set (drawn_matrix g p n). length row = n"
    and B: "length (drawn_matrix g' p' n) = n"
      "\<forall>row \<in> set (drawn_matrix g' p' n). length row = n"
    using drawn_matrix_shape by blast+
  from B(1) assms have "drawn_matrix g' p' n ! 0 \<in> set (drawn_matrix g' p' n)"
    by (intro nth_mem) simp
  with B(2) have B0: "length (drawn_matrix g' p' n ! 0) = n" by blast
  from A(1) B(1) assms have "drawn_matrix g p n \<noteq> []" "drawn_matrix g' p' n \<noteq> []" by auto
  with A(2) B(1,2) B0 show ?thesis unfolding compatible_def by simp
qed

lemma async_run:
  assumes "length As = length Bs" "\<And>A B. (A, B) \<in> set (zip As Bs) \<Longrightarrow> compatible A B"
    "1 \<le> cpu_count"
  shows "multiply_matrices_async cpu_count (map Some As @ [None]) (map Some Bs @ [None]) =
     (concat (map (\<lambda>(A, B). [Get_A (Some A), Get_B (Some B), Multiply (Some A) (Some B),
          Put (Some (naive_product A B))]) (zip As Bs)) @ [Get_A None, Get_B None, Put None],
      Finished)"
  using assms
proof (induction As Bs rule: list_induct2)
  case Nil
  show ?case by simp
next
  case (Cons A As B Bs)
  have "compatible A B" using Cons.prems(1) by simp
  then have "multiply_matrices cpu_count A B None = Inr (naive_product A B)"
    using Cons.prems(2) by (intro multiply_matrices_naive) simp_all
  moreover have "multiply_matrices_async cpu_count (map Some As @ [None]) (map Some Bs @ [None]) =
     (concat (map (\<lambda>(A, B). [Get_A (Some A), Get_B (Some B), Multiply (Some A) (Some B),
          Put (Some (naive_product A B))]) (zip As Bs)) @ [Get_A None, Get_B None, Put None],
      Finished)"
    using Cons.prems by (intro Cons.IH) simp_all
  ultimately show ?case by simp
qed

lemma puts_rounds:
  "puts (concat (map (\<lambda>(A, B). [Get_A (Some A), Get_B (Some B), Multiply (Some A) (Some B),
          Put (Some (f A B))]) ps) @ [Get_A None, Get_B None, Put None]) =
   map (\<lambda>(A, B). Some (f A B)) ps @ [None]"
  by (induction ps) auto

lemma drain_count: "drain (map Some Cs @ [None]) completed = Reports (completed + length Cs)"
  by (induction Cs arbitrary: completed) simp_all


lemma zip_map_upt:
  "zip (map f [0..<n]) (map g [0..<n]) = map (\<lambda>k. (f k, g k)) [0..<n]"
  by (induction n) simp_all

lemma stops_Put: "stops_after_sentinel_round (Put m # events) = stops_after_sentinel_round events"
  by (cases events) simp_all

lemma stops_Multiply:
  "stops_after_sentinel_round (Multiply a b # events) = stops_after_sentinel_round events"
  by (cases events) simp_all

lemma round_Put: "sentinel_round (Put m # events) = sentinel_round events"
  by (cases events) simp_all

lemma round_Multiply: "sentinel_round (Multiply a b # events) = sentinel_round events"
  by (cases events) simp_all

lemma async_trace:
  "multiply_matrices_async cpu_count queue_A queue_B = (events, st) \<Longrightarrow>
   stops_after_sentinel_round events \<and> no_sentinel_multiplied events \<and>
   (sentinel_round events \<longrightarrow>
      st = Finished \<and> count_list events (Put None) = 1 \<and> last events = Put None) \<and>
   (st = Finished \<longrightarrow> sentinel_round events)"
proof (induction cpu_count queue_A queue_B arbitrary: events st
    rule: multiply_matrices_async.induct)
  case (1 cpu_count queue_B)
  then show ?case by auto
next
  case (2 cpu_count a queue_A)
  then show ?case by auto
next
  case (3 cpu_count a queue_A b queue_B)
  show ?case
  proof (cases "a = None \<or> b = None")
    case True
    then have "multiply_matrices_async cpu_count (a # queue_A) (b # queue_B) =
        ([Get_A a, Get_B b, Put None], Finished)"
      by (auto split: option.splits)
    with "3.prems" have "events = [Get_A a, Get_B b, Put None]" "st = Finished" by simp_all
    with True show ?thesis by auto
  next
    case False
    then obtain A B where ab: "a = Some A" "b = Some B" by auto
    show ?thesis
    proof (cases "multiply_matrices cpu_count A B None")
      case (Inl e)
      with ab "3.prems" have "events = [Get_A a, Get_B b, Multiply a b]" "st = Raised e"
        by simp_all
      with ab show ?thesis by simp
    next
      case (Inr C)
      obtain events' st' where rest:
        "multiply_matrices_async cpu_count queue_A queue_B = (events', st')"
        by (cases "multiply_matrices_async cpu_count queue_A queue_B")
      with ab Inr "3.prems" have ev:
        "events = Get_A a # Get_B b # Multiply a b # Put (Some C) # events'" "st = st'"
        by simp_all
      have IH: "stops_after_sentinel_round events' \<and> no_sentinel_multiplied events' \<and>
          (sentinel_round events' \<longrightarrow>
             st' = Finished \<and> count_list events' (Put None) = 1 \<and> last events' = Put None) \<and>
          (st' = Finished \<longrightarrow> sentinel_round events')"
        using "3.IH" [OF refl ab(1) ab(2) Inr rest] .
      have ne: "sentinel_round events' \<Longrightarrow> events' \<noteq> []" by auto
      from IH ev ab ne show ?thesis
        by (simp add: stops_Put stops_Multiply round_Put round_Multiply)
    qed
  qed
qed

lemma example_round:
  "multiply_matrices_async 8 [Some [[1, 2]], None] [Some [[1 :: int], [2]], Some [[9]]] =
     ([Get_A (Some [[1, 2]]), Get_B (Some [[1], [2]]),
       Multiply (Some [[1, 2]]) (Some [[1], [2]]), Put (Some [[5]]),
       Get_A None, Get_B (Some [[9]]), Put None], Finished)"
  by code_simp


section \<open>Properties of the matrix files\<close>

lemma split_from_word:
  "\<forall>c \<in> set w. \<not> isspace c \<Longrightarrow> split_from (w @ rest) word = split_from rest (word @ w)"
  by (induction w arbitrary: word) simp_all

lemma isspace_blank: "isspace (CHR 0x20)"
  by (simp add: isspace_def)

lemma isspace_newline: "isspace (CHR 0x0A)"
  by (simp add: isspace_def)

lemma split_from_join:
  assumes "ws \<noteq> []" "\<forall>w \<in> set ws. w \<noteq> [] \<and> (\<forall>c \<in> set w. \<not> isspace c)"
  shows "split_from (join [CHR 0x20] ws) [] = ws"
  using assms
proof (induction "[CHR 0x20]" ws rule: join.induct)
  case 1
  then show ?case by simp
next
  case (2 w)
  then have "split_from (w @ []) [] = split_from [] ([] @ w)"
    by (intro split_from_word) simp
  with 2 show ?case by simp
next
  case (3 w w' ws)
  have "split_from (w @ CHR 0x20 # join [CHR 0x20] (w' # ws)) [] =
        split_from (CHR 0x20 # join [CHR 0x20] (w' # ws)) ([] @ w)"
    using "3.prems" by (intro split_from_word) simp
  moreover have "split_from (join [CHR 0x20] (w' # ws)) [] = w' # ws"
    using "3.prems" by (intro "3.hyps") simp_all
  ultimately show ?case using "3.prems" by (simp add: isspace_blank)
qed

lemma solid_word: "w \<noteq> [] \<Longrightarrow> \<forall>c \<in> set w. \<not> isspace c \<Longrightarrow> solid w"
  by (simp add: solid_def)

lemma solid_append: "solid s \<Longrightarrow> solid t \<Longrightarrow> solid (s @ sep @ t)"
  by (simp add: solid_def)

lemma solid_join:
  assumes "ws \<noteq> []" "\<forall>w \<in> set ws. w \<noteq> [] \<and> (\<forall>c \<in> set w. \<not> isspace c)"
  shows "solid (join sep ws)"
  using assms
proof (induction sep ws rule: join.induct)
  case (1 sep)
  then show ?case by simp
next
  case (2 sep w)
  then show ?case by (simp add: solid_word)
next
  case (3 sep w w' ws)
  have "solid w" using "3.prems" by (simp add: solid_word)
  moreover have "solid (join sep (w' # ws))" using "3.prems" by (intro "3.IH") simp_all
  ultimately show ?case by (simp add: solid_append)
qed

lemma strip_solid_line: "solid s \<Longrightarrow> strip (s @ [CHR 0x0A]) = s"
proof -
  assume s: "solid s"
  then obtain c cs where "s = c # cs" "\<not> isspace c" by (cases s) (auto simp: solid_def)
  then have 1: "dropWhile isspace (s @ [CHR 0x0A]) = s @ [CHR 0x0A]" by simp
  from s obtain d ds where "rev s = d # ds" "\<not> isspace d"
    by (cases "rev s") (auto simp: solid_def last_rev [symmetric] simp del: last_rev)
  then have 2: "dropWhile isspace (rev (s @ [CHR 0x0A])) = rev s"
    by (simp add: isspace_newline)
  show ?thesis unfolding strip_def 1 2 by simp
qed

lemma set_join: "set (join sep ws) \<subseteq> set sep \<union> \<Union> (set ` set ws)"
  by (induction sep ws rule: join.induct) auto

lemma readlines_line:
  "CHR 0x0A \<notin> set l \<Longrightarrow> CHR 0x0D \<notin> set l \<Longrightarrow>
   readlines (l @ CHR 0x0A # rest) line = (line @ l @ [CHR 0x0A]) # readlines rest []"
  by (induction l arbitrary: line) auto

lemma readlines_lines:
  "\<forall>l \<in> set ls. CHR 0x0A \<notin> set l \<and> CHR 0x0D \<notin> set l \<Longrightarrow>
   readlines (concat (map (\<lambda>l. l @ [CHR 0x0A]) ls)) [] = map (\<lambda>l. l @ [CHR 0x0A]) ls"
  by (induction ls) (simp_all add: readlines_line)

lemma convert_row_map:
  "\<forall>x \<in> set row. float (str x) = Some (r x) \<Longrightarrow>
   convert_row float (map str row) = Inr (map r row)"
  by (induction row) simp_all


lemma written_line:
  assumes "row \<noteq> []" "\<forall>x \<in> set row. str x \<noteq> [] \<and> (\<forall>c \<in> set (str x). \<not> isspace c)"
  shows "strip (join [CHR 0x20] (map str row) @ [CHR 0x0A]) = join [CHR 0x20] (map str row)"
    and "split (join [CHR 0x20] (map str row)) = map str row"
    and "join [CHR 0x20] (map str row) \<noteq> []"
    and "CHR 0x0A \<notin> set (join [CHR 0x20] (map str row))"
    and "CHR 0x0D \<notin> set (join [CHR 0x20] (map str row))"
proof -
  let ?ws = "map str row"
  have ws: "?ws \<noteq> []" "\<forall>w \<in> set ?ws. w \<noteq> [] \<and> (\<forall>c \<in> set w. \<not> isspace c)"
    using assms by simp_all
  have sol: "solid (join [CHR 0x20] ?ws)" using ws by (rule solid_join)
  then show "strip (join [CHR 0x20] ?ws @ [CHR 0x0A]) = join [CHR 0x20] ?ws"
    by (rule strip_solid_line)
  show "split (join [CHR 0x20] ?ws) = ?ws"
    unfolding split_def using ws by (rule split_from_join)
  from sol show "join [CHR 0x20] ?ws \<noteq> []" by (simp add: solid_def)
  have chars: "c = CHR 0x20 \<or> \<not> isspace c" if "c \<in> set (join [CHR 0x20] ?ws)" for c
    using that set_join [of "[CHR 0x20]" ?ws] ws(2) by auto
  have "isspace (CHR 0x0A)" "isspace (CHR 0x0D)" by (simp_all add: isspace_def)
  with chars show "CHR 0x0A \<notin> set (join [CHR 0x20] ?ws)"
    and "CHR 0x0D \<notin> set (join [CHR 0x20] ?ws)" by fastforce+
qed

lemma read_rows_written:
  assumes "\<forall>row \<in> set M. row \<noteq> [] \<and>
      (\<forall>x \<in> set row. str x \<noteq> [] \<and> (\<forall>c \<in> set (str x). \<not> isspace c) \<and>
         float (str x) = Some (r x))"
  shows "read_rows float (map (\<lambda>row. join [CHR 0x20] (map str row) @ [CHR 0x0A]) M) =
         Inr (map (map r) M)"
  using assms
proof (induction M)
  case Nil
  show ?case by simp
next
  case (Cons row M)
  have row: "row \<noteq> []" "\<forall>x \<in> set row. str x \<noteq> [] \<and> (\<forall>c \<in> set (str x). \<not> isspace c)"
    using Cons.prems by simp_all
  have conv: "convert_row float (map str row) = Inr (map r row)"
    using Cons.prems by (intro convert_row_map) simp
  have rest: "read_rows float (map (\<lambda>row. join [CHR 0x20] (map str row) @ [CHR 0x0A]) M) =
         Inr (map (map r) M)"
    using Cons.prems by (intro Cons.IH) simp
  show ?case
    by (simp add: written_line(1,2,3) [OF row] conv rest)
qed


section \<open>The claims\<close>

text \<open>
  Claim C1. For compatible matrices \<open>A\<close> (\<open>m \<times> k\<close>) and \<open>B\<close> (\<open>k \<times> n\<close>) and every
  worker count of at least one, given explicitly or taken from the machine's processor
  count, \<open>multiply_matrices\<close> returns exactly the matrix of the sequential triple loop,
  each cell summed from \<open>k = 0\<close> upward. No law of \<open>+\<close> or \<open>*\<close> is used, so the equality
  is one of the very same sequence of operations. In particular
  \<open>[[1,2],[3,4]]\<close> times \<open>[[5,6],[7,8]]\<close> is \<open>[[19,22],[43,50]]\<close> for every such count.
\<close>

theorem multiply_matrices_equals_naive_product:
  assumes "compatible A B"
    and "1 \<le> (case num_processes of None \<Rightarrow> cpu_count | Some n \<Rightarrow> n)"
  shows "multiply_matrices cpu_count A B num_processes = Inr (naive_product A B) \<and>
         multiply_matrices cpu_count [[1, 2], [3, 4]] [[5, 6], [7, 8 :: int]] num_processes =
           Inr [[19, 22], [43, 50]]"
  using assms multiply_matrices_naive [OF example_compatible assms(2)]
  by (simp only: multiply_matrices_naive example_naive simp_thms)

theorem multiply_matrices_equals_naive_product_witness:
  "compatible [[1, 0], [2, 1], [0, 3]] [[1, 2, 3], [4, 5, 6 :: int]] \<and>
   multiply_matrices 8 [[1, 0], [2, 1], [0, 3]] [[1, 2, 3], [4, 5, 6 :: int]] (Some 2) =
     Inr [[1, 2, 3], [6, 9, 12], [12, 15, 18]] \<and>
   multiply_matrices 8 [[1, 2], [3, 4]] [[5, 6], [7, 8 :: int]] (Some 2) = Inr [[19, 22], [43, 50]]"
proof -
  have c: "compatible [[1, 0], [2, 1], [0, 3]] [[1, 2, 3], [4, 5, 6 :: int]]"
    by (simp add: compatible_def)
  have n: "1 \<le> (case Some 2 of None \<Rightarrow> 8 | Some n \<Rightarrow> (n :: int))" by simp
  have "naive_product [[1, 0], [2, 1], [0, 3]] [[1, 2, 3], [4, 5, 6 :: int]] =
        [[1, 2, 3], [6, 9, 12], [12, 15, 18]]"
    by (simp add: naive_product_def upt_rec)
  with c show ?thesis
    using multiply_matrices_equals_naive_product [OF c n] by simp
qed

text \<open>
  Claim C3. With operands that pass the checks at the head of \<open>multiply_matrices\<close>, every
  override that is not a positive integer makes the call fail in the pool constructor,
  which is how the program refuses a worker count: with the \<open>ValueError\<close> "Number of
  processes must be at least 1" when the value is below one, with \<open>TypeError\<close> otherwise
  (a float that is not below one, a text). The error is raised in the caller when the
  pool is built, before \<open>pool.map\<close> hands out any task: the operands need not even be
  rectangular, so tasks that would themselves raise are never run. On an integer
  override the function is \<open>multiply_matrices\<close>.
\<close>

theorem invalid_worker_count_fails:
  assumes "A \<noteq> []" and "B \<noteq> []" and "length (A ! 0) = length B"
    and "\<not> positive_integer v"
  shows "multiply_matrices_any cpu_count A B (Some v) =
           Inl (if below_one v then ValueError Processes_less_than_1 else TypeError) \<and>
         multiply_matrices_any cpu_count A B (map_option PyInt num_processes) =
           multiply_matrices cpu_count A B num_processes"
proof -
  have "Pool_any v = Inl (if below_one v then ValueError Processes_less_than_1 else TypeError)"
    using assms(4) by (rule Pool_any_rejects)
  with assms(1,2,3) have "multiply_matrices_any cpu_count A B (Some v) =
      Inl (if below_one v then ValueError Processes_less_than_1 else TypeError)"
    by (simp add: multiply_matrices_any_def Let_def)
  then show ?thesis by (simp only: multiply_matrices_any_int simp_thms)
qed

theorem invalid_worker_count_fails_witness:
  "multiply_matrices_any 8 [[1, 2], [3, 4]] [[5, 6], [7, 8 :: int]] (Some (PyInt 0)) =
     Inl (ValueError Processes_less_than_1) \<and>
   multiply_matrices_any 8 [[1, 2], [3, 4]] [[5, 6], [7, 8 :: int]]
     (Some (PyFloat (Finite 1 (- 1)))) = Inl (ValueError Processes_less_than_1) \<and>
   multiply_matrices_any 8 [[1, 2], [3, 4]] [[5, 6], [7, 8 :: int]]
     (Some (PyFloat (Finite 5 (- 1)))) = Inl TypeError \<and>
   multiply_matrices_any 8 [[1, 2], [3]] [[5], [7, 8 :: int]] (Some (PyStr ''2'')) =
     Inl TypeError \<and>
   multiply_matrices 8 [[1, 2], [3]] [[5], [7, 8 :: int]] (Some (- 3)) =
     Inl (ValueError Processes_less_than_1)"
proof -
  note t = invalid_worker_count_fails [where cpu_count = 8 and num_processes = "Some (- 3)"]
  have 1: "multiply_matrices_any 8 [[1, 2], [3, 4]] [[5, 6], [7, 8 :: int]] (Some (PyInt 0)) =
     Inl (ValueError Processes_less_than_1)"
    using t [where A = "[[1, 2], [3, 4]]" and B = "[[5, 6], [7, 8 :: int]]" and v = "PyInt 0"]
    by simp
  have 2: "multiply_matrices_any 8 [[1, 2], [3, 4]] [[5, 6], [7, 8 :: int]]
     (Some (PyFloat (Finite 1 (- 1)))) = Inl (ValueError Processes_less_than_1)"
    using t [where A = "[[1, 2], [3, 4]]" and B = "[[5, 6], [7, 8 :: int]]"
        and v = "PyFloat (Finite 1 (- 1))"]
    by simp
  have 3: "multiply_matrices_any 8 [[1, 2], [3, 4]] [[5, 6], [7, 8 :: int]]
     (Some (PyFloat (Finite 5 (- 1)))) = Inl TypeError"
    using t [where A = "[[1, 2], [3, 4]]" and B = "[[5, 6], [7, 8 :: int]]"
        and v = "PyFloat (Finite 5 (- 1))"]
    by simp
  have 4: "multiply_matrices_any 8 [[1, 2], [3]] [[5], [7, 8 :: int]] (Some (PyStr ''2'')) =
     Inl TypeError"
    using t [where A = "[[1, 2], [3]]" and B = "[[5], [7, 8 :: int]]" and v = "PyStr ''2''"]
    by simp
  have 5: "multiply_matrices 8 [[1, 2], [3]] [[5], [7, 8 :: int]] (Some (- 3)) =
     Inl (ValueError Processes_less_than_1)"
  proof -
    have "multiply_matrices_any 8 [[1, 2], [3]] [[5], [7, 8 :: int]] (Some (PyInt (- 3))) =
        Inl (ValueError Processes_less_than_1) \<and>
      multiply_matrices_any 8 [[1, 2], [3]] [[5], [7, 8 :: int]] (Some (PyInt (- 3))) =
        multiply_matrices 8 [[1, 2], [3]] [[5], [7, 8 :: int]] (Some (- 3))"
      using t [where A = "[[1, 2], [3]]" and B = "[[5], [7, 8 :: int]]" and v = "PyInt (- 3)"]
      by auto
    then have a: "multiply_matrices_any 8 [[1, 2], [3]] [[5], [7, 8 :: int]]
          (Some (PyInt (- 3))) = Inl (ValueError Processes_less_than_1)"
      and b: "multiply_matrices_any 8 [[1, 2], [3]] [[5], [7, 8 :: int]] (Some (PyInt (- 3))) =
        multiply_matrices 8 [[1, 2], [3]] [[5], [7, 8 :: int]] (Some (- 3))"
      by blast+
    from b [symmetric] a show ?thesis by (rule trans)
  qed
  from 1 2 3 4 5 show ?thesis by blast
qed

text \<open>
  Claim C4. For non-empty \<open>A\<close> and \<open>B\<close> where the number of columns of \<open>A\<close> (the length of
  its first row) differs from the number of rows of \<open>B\<close>, \<open>multiply_matrices\<close> fails with
  the dimension \<open>ValueError\<close> and returns no matrix. The check comes before the task list
  and the pool are built: the result is the same whatever the worker count, valid or not.
\<close>

theorem dimension_mismatch_fails:
  "A \<noteq> [] \<Longrightarrow> B \<noteq> [] \<Longrightarrow> length (A ! 0) \<noteq> length B \<Longrightarrow>
   multiply_matrices cpu_count A B num_processes = Inl (ValueError Columns_differ_from_rows)"
  by (simp add: multiply_matrices_def)

theorem dimension_mismatch_fails_witness:
  "multiply_matrices 8 [[1, 2, 3 :: int]] [[1], [2]] (Some 0) =
     Inl (ValueError Columns_differ_from_rows)"
  using dimension_mismatch_fails [of "[[1, 2, 3 :: int]]" "[[1], [2]]" 8 "Some 0"]
  by simp

text \<open>
  Claim C5. When either operand has no rows, \<open>multiply_matrices\<close> fails with the
  emptiness \<open>ValueError\<close> and returns no matrix, whatever the other arguments.
\<close>

theorem empty_operand_fails:
  "A = [] \<or> B = [] \<Longrightarrow>
   multiply_matrices cpu_count A B num_processes = Inl (ValueError Matrices_empty)"
  by (simp add: multiply_matrices_def)

theorem empty_operand_fails_witness:
  "multiply_matrices 8 [] [[1, 2 :: int]] (Some 0) = Inl (ValueError Matrices_empty) \<and>
   multiply_matrices 8 [[1, 2 :: int]] [] None = Inl (ValueError Matrices_empty)"
  using empty_operand_fails [of "[]" "[[1, 2 :: int]]" 8 "Some 0"]
    empty_operand_fails [of "[[1, 2 :: int]]" "[]" 8 None]
  by simp

text \<open>
  Claim C10. The emptiness check only looks at the number of rows. For every \<open>A\<close> with
  at least one row whose first row has exactly one entry, and \<open>B = [[]]\<close> (one row, no
  column), \<open>multiply_matrices\<close> raises nothing and returns a matrix with as many rows as
  \<open>A\<close>, each of length zero.
\<close>

theorem zero_column_operand_accepted:
  assumes "A \<noteq> []" and "length (A ! 0) = 1"
    and "1 \<le> (case num_processes of None \<Rightarrow> cpu_count | Some n \<Rightarrow> n)"
  shows "multiply_matrices cpu_count A [[]] num_processes = Inr (replicate (length A) [])"
proof -
  have "Pool (case num_processes of None \<Rightarrow> cpu_count | Some n \<Rightarrow> n) =
        Inr (nat (case num_processes of None \<Rightarrow> cpu_count | Some n \<Rightarrow> n))"
    using assms(3) by (simp add: Pool_def)
  with assms(1,2) show ?thesis
    by (simp add: multiply_matrices_def Let_def concat_map_Nil pool_map_Nil)
qed

theorem zero_column_operand_accepted_witness:
  "multiply_matrices 8 [[1], [3 :: int]] [[]] None = Inr [[], []]"
  using zero_column_operand_accepted
    [where A = "[[1], [3 :: int]]" and num_processes = None and cpu_count = 8]
  by (simp add: numeral_2_eq_2)


text \<open>
  Claim C6 fails on the code. Every task of the logging multiply holds the lock, and a
  lock cannot be pickled, so \<open>pool.map\<close> can send no batch to a worker: for compatible
  operands with at least one output position and a worker count of at least one, the
  call ends with \<open>RuntimeError\<close>, no worker has run, and the intermediate file, emptied
  before, holds no line at all, whatever it held before and whatever the order of the
  workers.
\<close>

theorem logging_multiply_writes_nothing:
  assumes "compatible A B" and "B ! 0 \<noteq> []"
    and "1 \<le> (case num_processes of None \<Rightarrow> cpu_count | Some n \<Rightarrow> n)"
  shows "multiply_matrices_with_intermediate_write cpu_count sched A B intermediate_file content
           num_processes = (Inl RuntimeError, []) \<and>
         0 < length A * length (B ! 0)"
proof -
  have "A \<noteq> []" "B \<noteq> []" using assms(1) by (simp_all add: compatible_nonempty)
  moreover from this have "length (A ! 0) = length B"
    using compatible_rows_A [OF assms(1), of 0] by simp
  ultimately show ?thesis
    using assms(2,3) by (simp add: logging_multiply_raises)
qed

theorem logging_multiply_writes_nothing_witness:
  "compatible [[1, 2], [3, 4]] [[5, 6], [7, 8 :: int]] \<and>
   multiply_matrices_with_intermediate_write 8 (\<lambda>t. t) [[1, 2], [3, 4]] [[5, 6], [7, 8 :: int]]
     ''intermediate_results.txt'' [(7, 7, 7)] (Some 2) = (Inl RuntimeError, []) \<and>
   (0 :: nat) < length [[1, 2], [3, 4 :: int]] * length ([[5, 6], [7, 8 :: int]] ! 0)"
proof -
  have n: "1 \<le> (case Some 2 of None \<Rightarrow> 8 | Some n \<Rightarrow> (n :: int))" by simp
  show ?thesis
    using example_compatible
      logging_multiply_writes_nothing [OF example_compatible example_checks(4) n,
        where sched = "\<lambda>t. t" and intermediate_file = "''intermediate_results.txt''"
          and content = "[(7, 7, 7)]"]
    by simp
qed

text \<open>
  Claim C7 fails on the code, from the same defect: for compatible operands with at
  least one output position and a worker count of at least one, the logging multiply
  ends with \<open>RuntimeError\<close> where \<open>multiply_matrices\<close> returns the product.
\<close>

theorem logging_multiply_raises_where_plain_returns:
  assumes "compatible A B" and "B ! 0 \<noteq> []"
    and "1 \<le> (case num_processes of None \<Rightarrow> cpu_count | Some n \<Rightarrow> n)"
  shows "fst (multiply_matrices_with_intermediate_write cpu_count sched A B intermediate_file
           content num_processes) = Inl RuntimeError \<and>
         multiply_matrices cpu_count A B num_processes = Inr (naive_product A B)"
proof -
  have "A \<noteq> []" "B \<noteq> []" using assms(1) by (simp_all add: compatible_nonempty)
  moreover from this have "length (A ! 0) = length B"
    using compatible_rows_A [OF assms(1), of 0] by simp
  ultimately have "multiply_matrices_with_intermediate_write cpu_count sched A B
      intermediate_file content num_processes = (Inl RuntimeError, [])"
    using assms(2,3) by (simp add: logging_multiply_raises)
  then show ?thesis
    by (simp only: multiply_matrices_naive [OF assms(1,3)] fst_conv simp_thms)
qed

theorem logging_multiply_raises_where_plain_returns_witness:
  "compatible [[1, 2], [3, 4]] [[5, 6], [7, 8 :: int]] \<and>
   fst (multiply_matrices_with_intermediate_write 8 (\<lambda>t. t) [[1, 2], [3, 4]]
     [[5, 6], [7, 8 :: int]] ''intermediate_results.txt'' [] None) = Inl RuntimeError \<and>
   multiply_matrices 8 [[1, 2], [3, 4]] [[5, 6], [7, 8 :: int]] None = Inr [[19, 22], [43, 50]]"
proof -
  have n: "1 \<le> (case None of None \<Rightarrow> 8 | Some n \<Rightarrow> (n :: int))" by simp
  show ?thesis
    using example_compatible
      logging_multiply_raises_where_plain_returns [OF example_compatible example_checks(4) n,
        where sched = "\<lambda>t. t" and intermediate_file = "''intermediate_results.txt''"
          and content = "[]"]
    by (simp add: example_naive)
qed


text \<open>
  Claim C8. For a size \<open>S\<close> of at least one and a count \<open>M\<close> (not negative), each
  generator puts on its channel exactly \<open>M\<close> matrices of \<open>S\<close> rows of \<open>S\<close> values, the
  \<open>k\<close>-th one built from the \<open>k\<close>-th block of \<open>S * S\<close> values of its source, and then one
  sentinel; the multiplier pulls \<open>M\<close> pairs, puts the \<open>M\<close> products on the result
  channel in that order, then one sentinel, and returns; the draining loop reports \<open>M\<close>.
\<close>

theorem pipeline_counts:
  assumes "1 \<le> S" and "0 \<le> M" and "1 \<le> cpu_count"
  shows "generate_random_matrix_process S M (g, p) =
           map (\<lambda>k. Some (drawn_matrix g (p + k * (nat S * nat S)) (nat S))) [0..<nat M] @ [None] \<and>
         length (drawn_matrix g q (nat S)) = nat S \<and>
         (\<forall>row \<in> set (drawn_matrix g q (nat S)). length row = nat S) \<and>
         multiply_matrices_async cpu_count
             (generate_random_matrix_process S M (g, p))
             (generate_random_matrix_process S M (g', p')) =
           (concat (map (\<lambda>k.
               [Get_A (Some (drawn_matrix g (p + k * (nat S * nat S)) (nat S))),
                Get_B (Some (drawn_matrix g' (p' + k * (nat S * nat S)) (nat S))),
                Multiply (Some (drawn_matrix g (p + k * (nat S * nat S)) (nat S)))
                         (Some (drawn_matrix g' (p' + k * (nat S * nat S)) (nat S))),
                Put (Some (naive_product (drawn_matrix g (p + k * (nat S * nat S)) (nat S))
                                         (drawn_matrix g' (p' + k * (nat S * nat S)) (nat S))))])
               [0..<nat M]) @ [Get_A None, Get_B None, Put None], Finished) \<and>
         puts (fst (multiply_matrices_async cpu_count
             (generate_random_matrix_process S M (g, p))
             (generate_random_matrix_process S M (g', p')))) =
           map (\<lambda>k. Some (naive_product (drawn_matrix g (p + k * (nat S * nat S)) (nat S))
                                         (drawn_matrix g' (p' + k * (nat S * nat S)) (nat S))))
             [0..<nat M] @ [None] \<and>
         async_multiplication_demo cpu_count S M (g, p) (g', p') = Reports (nat M)"
proof -
  let ?n = "nat S" and ?m = "nat M"
  let ?A = "\<lambda>k. drawn_matrix g (p + k * (?n * ?n)) ?n"
  let ?B = "\<lambda>k. drawn_matrix g' (p' + k * (?n * ?n)) ?n"
  let ?round = "\<lambda>(A, B). [Get_A (Some A), Get_B (Some B), Multiply (Some A) (Some B),
          Put (Some (naive_product A B))]"
  have pos: "0 < ?n" using assms(1) by simp
  have genA: "generate_random_matrix_process S M (g, p) = map Some (map ?A [0..<?m]) @ [None]"
    by (simp add: generate_random_matrix_process_def generate_loop_eq comp_def)
  have genB: "generate_random_matrix_process S M (g', p') = map Some (map ?B [0..<?m]) @ [None]"
    by (simp add: generate_random_matrix_process_def generate_loop_eq comp_def)
  have zip: "zip (map ?A [0..<?m]) (map ?B [0..<?m]) = map (\<lambda>k. (?A k, ?B k)) [0..<?m]"
    by (rule zip_map_upt)
  have run: "multiply_matrices_async cpu_count (map Some (map ?A [0..<?m]) @ [None])
        (map Some (map ?B [0..<?m]) @ [None]) =
      (concat (map ?round (zip (map ?A [0..<?m]) (map ?B [0..<?m]))) @
         [Get_A None, Get_B None, Put None], Finished)"
  proof (rule async_run)
    show "length (map ?A [0..<?m]) = length (map ?B [0..<?m])" by simp
    show "1 \<le> cpu_count" by (rule assms(3))
    fix A B assume "(A, B) \<in> set (zip (map ?A [0..<?m]) (map ?B [0..<?m]))"
    then obtain k where "A = ?A k" "B = ?B k" unfolding zip by auto
    then show "compatible A B" using drawn_matrix_compatible [OF pos] by simp
  qed
  have puts: "puts (concat (map ?round (zip (map ?A [0..<?m]) (map ?B [0..<?m]))) @
         [Get_A None, Get_B None, Put None]) =
      map (\<lambda>(A, B). Some (naive_product A B)) (zip (map ?A [0..<?m]) (map ?B [0..<?m])) @ [None]"
    by (rule puts_rounds)
  have c1: "generate_random_matrix_process S M (g, p) = map (\<lambda>k. Some (?A k)) [0..<?m] @ [None]"
    using genA by (simp add: comp_def)
  have c2: "length (drawn_matrix g q ?n) = ?n \<and> (\<forall>row \<in> set (drawn_matrix g q ?n). length row = ?n)"
    by (rule drawn_matrix_shape)
  have c3: "multiply_matrices_async cpu_count (generate_random_matrix_process S M (g, p))
        (generate_random_matrix_process S M (g', p')) =
      (concat (map (\<lambda>k. [Get_A (Some (?A k)), Get_B (Some (?B k)),
           Multiply (Some (?A k)) (Some (?B k)), Put (Some (naive_product (?A k) (?B k)))])
         [0..<?m]) @ [Get_A None, Get_B None, Put None], Finished)"
    using run unfolding genA genB zip by (simp add: comp_def)
  have c4: "puts (fst (multiply_matrices_async cpu_count (generate_random_matrix_process S M (g, p))
        (generate_random_matrix_process S M (g', p')))) =
      map (\<lambda>k. Some (naive_product (?A k) (?B k))) [0..<?m] @ [None]"
    using puts run unfolding genA genB zip by (simp add: comp_def)
  have "drain (map Some (map (\<lambda>k. naive_product (?A k) (?B k)) [0..<?m]) @ [None]) 0 =
      Reports (0 + length (map (\<lambda>k. naive_product (?A k) (?B k)) [0..<?m]))"
    by (rule drain_count)
  then have c5: "async_multiplication_demo cpu_count S M (g, p) (g', p') = Reports ?m"
    unfolding async_multiplication_demo_def Let_def c4 by (simp add: comp_def)
  from c1 c2 c3 c4 c5 show ?thesis by blast
qed

theorem pipeline_counts_witness:
  "(1 :: int) \<le> 4 \<and> (0 :: int) \<le> 3 \<and> (1 :: int) \<le> 8 \<and>
   length (generate_random_matrix_process 4 3 (\<lambda>n. int n, 5)) = 4 \<and>
   last (generate_random_matrix_process 4 3 (\<lambda>n. int n, 5)) = None \<and>
   length (puts (fst (multiply_matrices_async 8
       (generate_random_matrix_process 4 3 (\<lambda>n. int n, 5))
       (generate_random_matrix_process 4 3 (\<lambda>n. 2 * int n, 0))))) = 4 \<and>
   async_multiplication_demo 8 4 3 (\<lambda>n. int n, 5) (\<lambda>n. 2 * int n, 0) = Reports 3"
proof -
  have h: "(1 :: int) \<le> 4" "(0 :: int) \<le> 3" "(1 :: int) \<le> 8" by simp_all
  note inst = pipeline_counts [OF h, where g = "\<lambda>n. int n" and p = 5 and g' = "\<lambda>n. 2 * int n"
        and p' = 0 and q = 0]
  from inst have gen: "generate_random_matrix_process 4 3 (\<lambda>n. int n, 5) =
      map (\<lambda>k. Some (drawn_matrix (\<lambda>n. int n) (5 + k * (nat 4 * nat 4)) (nat 4))) [0..<nat 3] @
      [None]" by (rule conjunct1)
  from inst have res: "puts (fst (multiply_matrices_async 8
       (generate_random_matrix_process 4 3 (\<lambda>n. int n, 5))
       (generate_random_matrix_process 4 3 (\<lambda>n. 2 * int n, 0)))) =
      map (\<lambda>k. Some (naive_product (drawn_matrix (\<lambda>n. int n) (5 + k * (nat 4 * nat 4)) (nat 4))
            (drawn_matrix (\<lambda>n. 2 * int n) (0 + k * (nat 4 * nat 4)) (nat 4)))) [0..<nat 3] @
      [None]" by blast
  from inst have demo:
    "async_multiplication_demo 8 4 3 (\<lambda>n. int n, 5) (\<lambda>n. 2 * int n, 0) = Reports (nat 3)"
    by blast
  have 1: "length (generate_random_matrix_process 4 3 (\<lambda>n. int n, 5)) = 4"
    unfolding gen by simp
  have 2: "last (generate_random_matrix_process 4 3 (\<lambda>n. int n, 5)) = None"
    unfolding gen by simp
  have 3: "length (puts (fst (multiply_matrices_async 8
       (generate_random_matrix_process 4 3 (\<lambda>n. int n, 5))
       (generate_random_matrix_process 4 3 (\<lambda>n. 2 * int n, 0))))) = 4"
    unfolding res by simp
  from h 1 2 3 demo show ?thesis by simp
qed

text \<open>
  Claim C2, as the code has it. In each round the multiplier pulls from A and then from
  B, and only then looks at the two values. If one of them is the sentinel, it pulls
  nothing after that round, pushes exactly one sentinel, which is the last thing it
  does, and returns; \<open>multiply_matrices\<close> is never called on a sentinel. (When the
  sentinel comes from A, the pull from B of the same round is still made.)
\<close>

theorem actor_stops_after_sentinel_round:
  "(a = None \<or> b = None \<longrightarrow>
      multiply_matrices_async cpu_count (a # queue_A') (b # queue_B') =
        ([Get_A a, Get_B b, Put None], Finished)) \<and>
   (case multiply_matrices_async cpu_count queue_A queue_B of
      (events, st) \<Rightarrow>
        stops_after_sentinel_round events \<and> no_sentinel_multiplied events \<and>
        (sentinel_round events \<longrightarrow>
           st = Finished \<and> count_list events (Put None) = 1 \<and> last events = Put None))"
proof -
  have "multiply_matrices_async cpu_count (a # queue_A') (b # queue_B') =
        ([Get_A a, Get_B b, Put None], Finished)" if "a = None \<or> b = None"
    using that by (auto split: option.splits)
  moreover obtain events st where
    run: "multiply_matrices_async cpu_count queue_A queue_B = (events, st)"
    by (cases "multiply_matrices_async cpu_count queue_A queue_B")
  moreover note async_trace [OF run]
  ultimately show ?thesis by simp
qed

theorem actor_stops_after_sentinel_round_witness:
  "multiply_matrices_async 8 [None] [Some [[9 :: int]]] =
     ([Get_A None, Get_B (Some [[9]]), Put None], Finished) \<and>
   sentinel_round (fst (multiply_matrices_async 8 [Some [[1, 2]], None]
      [Some [[1 :: int], [2]], Some [[9]]])) \<and>
   snd (multiply_matrices_async 8 [Some [[1, 2]], None]
      [Some [[1 :: int], [2]], Some [[9]]]) = Finished \<and>
   count_list (fst (multiply_matrices_async 8 [Some [[1, 2]], None]
      [Some [[1 :: int], [2]], Some [[9]]])) (Put None) = 1 \<and>
   stops_after_sentinel_round (fst (multiply_matrices_async 8 [Some [[1, 2]], None]
      [Some [[1 :: int], [2]], Some [[9]]])) \<and>
   no_sentinel_multiplied (fst (multiply_matrices_async 8 [Some [[1, 2]], None]
      [Some [[1 :: int], [2]], Some [[9]]]))"
proof -
  note inst = actor_stops_after_sentinel_round [where a = None and b = "Some [[9 :: int]]"
      and queue_A' = "[]" and queue_B' = "[]" and cpu_count = 8
      and queue_A = "[Some [[1, 2]], None]" and queue_B = "[Some [[1 :: int], [2]], Some [[9]]]"]
  have r: "sentinel_round (fst (multiply_matrices_async 8 [Some [[1, 2]], None]
      [Some [[1 :: int], [2]], Some [[9]]]))"
    unfolding example_round by simp
  from inst r show ?thesis unfolding example_round by simp
qed

text \<open>
  Claim C2 as stated does not hold: after the sentinel has been pulled from A the actor
  pulls once more, from B; and when B never delivers, it waits there for ever and pushes
  nothing.
\<close>

theorem actor_pulls_after_sentinel:
  "\<not> stops_at_sentinel (fst (multiply_matrices_async 8 [None] [Some [[9 :: int]], None])) \<and>
   multiply_matrices_async 8 [None] [Some [[9 :: int]], None] =
     ([Get_A None, Get_B (Some [[9]]), Put None], Finished) \<and>
   multiply_matrices_async 8 [None] ([] :: int channel) = ([Get_A None], Blocked)"
  by simp


text \<open>
  Claim C9. For every matrix whose rows are not empty, written with \<open>write_matrix\<close> and
  read back with \<open>read_matrix\<close>: when the text form \<open>str x\<close> of each entry is not empty and
  has no whitespace in it, and \<open>float\<close> reads it as \<open>r x\<close>, the matrix read back has the
  shape of the original and holds \<open>r x\<close> where the original holds \<open>x\<close>. The two matrices
  so differ by what the text form of a number loses and by nothing else; where
  \<open>float (str x)\<close> is \<open>x\<close> again, they are equal.
\<close>

theorem write_then_read:
  assumes "\<forall>row \<in> set M. row \<noteq> [] \<and>
      (\<forall>x \<in> set row. str x \<noteq> [] \<and> (\<forall>c \<in> set (str x). \<not> isspace c) \<and>
         float (str x) = Some (r x))"
  shows "read_matrix float (write_matrix str M) = Inr (map (map r) M)"
proof -
  let ?line = "\<lambda>row. join [CHR 0x20] (map str row)"
  have "\<forall>l \<in> set (map ?line M). CHR 0x0A \<notin> set l \<and> CHR 0x0D \<notin> set l"
  proof
    fix l assume "l \<in> set (map ?line M)"
    then obtain row where "row \<in> set M" "l = ?line row" by auto
    with assms written_line(4,5) [of row str] show "CHR 0x0A \<notin> set l \<and> CHR 0x0D \<notin> set l"
      by blast
  qed
  then have "readlines (concat (map (\<lambda>l. l @ [CHR 0x0A]) (map ?line M))) [] =
      map (\<lambda>l. l @ [CHR 0x0A]) (map ?line M)"
    by (rule readlines_lines)
  then have "readlines (write_matrix str M) [] = map (\<lambda>row. ?line row @ [CHR 0x0A]) M"
    by (simp add: write_matrix_def comp_def)
  then show ?thesis
    unfolding read_matrix_def using read_rows_written [OF assms] by simp
qed

theorem write_then_read_witness:
  "read_matrix (\<lambda>s. if s = ''1.0'' then Some True else if s = ''0.0'' then Some False else None)
     (write_matrix (\<lambda>b. if b then ''1.0'' else ''0.0'') [[True, False], [False, True]]) =
   Inr [[True, False], [False, True]] \<and>
   write_matrix (\<lambda>b. if b then ''1.0'' else ''0.0'') [[True, False], [False, True]] =
   ''1.0 0.0'' @ [CHR 0x0A] @ ''0.0 1.0'' @ [CHR 0x0A]"
proof -
  have "read_matrix (\<lambda>s. if s = ''1.0'' then Some True else if s = ''0.0'' then Some False else None)
     (write_matrix (\<lambda>b. if b then ''1.0'' else ''0.0'') [[True, False], [False, True]]) =
   Inr (map (map (\<lambda>b. b)) [[True, False], [False, True]])"
    by (rule write_then_read) (simp add: isspace_def)
  moreover have "write_matrix (\<lambda>b. if b then ''1.0'' else ''0.0'') [[True, False], [False, True]] =
   ''1.0 0.0'' @ [CHR 0x0A] @ ''0.0 1.0'' @ [CHR 0x0A]"
    by (simp add: write_matrix_def)
  ultimately show ?thesis by simp
qed


end
